theory Spec2Isabelle
  imports Complex_Main "HOL-Library.AList"
begin

section \<open>Python values, strings and errors\<close>

text \<open>
  The development embeds \<^verbatim>\<open>scripts/supabase_client.py\<close> (class
  \<^verbatim>\<open>SupabaseClient\<close>). Python strings are modelled as \<^typ>\<open>string\<close> and read as
  ASCII text: the string methods below (\<^verbatim>\<open>isdigit\<close>, \<^verbatim>\<open>upper\<close>,
  \<^verbatim>\<open>lower\<close>) are Python's on ASCII characters. A Python \<^verbatim>\<open>dict\<close> is an
  association list in insertion order, written to with \<^const>\<open>AList.update\<close>
  (an existing key keeps its place and takes the new value, a new key goes to the end).
  Every exception the code can raise is a value of \<open>error\<close>; a function that can
  raise returns \<open>error + 'a\<close>, with \<open>Inl\<close> the exception.
\<close>

datatype error =
    KeyError string
  | ValueError
  | HTTPError nat
  | ConnectionError
  | JSONDecodeError
  | InvalidJSONError

text \<open>
  The values that travel in rows. \<open>PFloat\<close> is a finite float and carries the exact
  decimal value of the literal it was read from (the rounding of that value to the
  nearest double is outside the model); \<open>PInfinity\<close> is an infinite float, with
  \<open>True\<close> for the negative one, and \<open>PNaN\<close> is not-a-number.
\<close>

datatype pyval = PStr string | PInt int | PFloat rat | PInfinity bool | PNaN

type_synonym row = "(string \<times> pyval) list"

definition isdigit_char :: "char \<Rightarrow> bool" where
  "isdigit_char c = (c \<in> set ''0123456789'')"

text \<open>\<^verbatim>\<open>str.isdigit()\<close>: at least one character, and every character a digit.\<close>

definition isdigit :: "string \<Rightarrow> bool" where
  "isdigit s = (s \<noteq> [] \<and> list_all isdigit_char s)"

text \<open>\<^verbatim>\<open>s.replace(c, '', 1)\<close> for a one-character \<open>c\<close>: the first occurrence goes.\<close>

definition replace_first :: "char \<Rightarrow> string \<Rightarrow> string" where
  "replace_first c s = remove1 c s"

definition digit_value :: "char \<Rightarrow> nat" where
  "digit_value c = of_char c - 48"

definition decimal :: "string \<Rightarrow> nat" where
  "decimal ds = foldl (\<lambda>a c. 10 * a + digit_value c) 0 ds"

text \<open>
  \<^verbatim>\<open>int(s)\<close> on a string: an optional sign, then one or more digits; anything else
  raises \<^verbatim>\<open>ValueError\<close>. (Python also accepts surrounding whitespace and
  underscores between digits; a string holding either never reaches \<^verbatim>\<open>int\<close>
  in this program, because the digit test before the call rejects it. The interpreter's
  limit on the number of digits of a literal is not modelled.)
\<close>

definition py_int :: "string \<Rightarrow> error + int" where
  "py_int s =
     (case s of
        [] \<Rightarrow> Inl ValueError
      | c # r \<Rightarrow>
          if c = CHR ''-'' then (if isdigit r then Inr (- int (decimal r)) else Inl ValueError)
          else if c = CHR ''+'' then (if isdigit r then Inr (int (decimal r)) else Inl ValueError)
          else if isdigit s then Inr (int (decimal s)) else Inl ValueError)"

text \<open>
  \<^verbatim>\<open>float(s)\<close> on a string: an optional sign, digits, optionally a point and more
  digits, with at least one digit in all; anything else raises \<^verbatim>\<open>ValueError\<close>.
  (Exponents, \<^verbatim>\<open>inf\<close>, \<^verbatim>\<open>nan\<close>, whitespace and underscores never reach
  \<^verbatim>\<open>float\<close> in this program, for the same reason.) \<open>float_literal\<close> is the
  number the literal denotes; \<open>py_float\<close> is the float made of it. The conversion
  rounds to the nearest double, ties to even, so a number whose magnitude reaches
  \<open>2 ^ 1024 - 2 ^ 970\<close>, half-way between the largest double and \<open>2 ^ 1024\<close>,
  becomes an infinity.
\<close>

definition unsigned_float :: "string \<Rightarrow> error + rat" where
  "unsigned_float b =
     (let ip = takeWhile (\<lambda>c. c \<noteq> CHR ''.'') b;
          fp = drop 1 (dropWhile (\<lambda>c. c \<noteq> CHR ''.'') b)
      in if list_all isdigit_char ip \<and> list_all isdigit_char fp \<and> ip @ fp \<noteq> []
         then Inr (of_nat (decimal (ip @ fp)) / 10 ^ length fp)
         else Inl ValueError)"

definition float_literal :: "string \<Rightarrow> error + rat" where
  "float_literal s =
     (case s of
        [] \<Rightarrow> Inl ValueError
      | c # r \<Rightarrow>
          if c = CHR ''-'' then (case unsigned_float r of Inl e \<Rightarrow> Inl e | Inr x \<Rightarrow> Inr (- x))
          else if c = CHR ''+'' then unsigned_float r
          else unsigned_float s)"

definition float_overflow :: rat where
  "float_overflow = 2 ^ 1024 - 2 ^ 970"

definition float_of :: "rat \<Rightarrow> pyval" where
  "float_of x = (if float_overflow \<le> \<bar>x\<bar> then PInfinity (x < 0) else PFloat x)"

definition py_float :: "string \<Rightarrow> error + pyval" where
  "py_float s = (case float_literal s of Inl e \<Rightarrow> Inl e | Inr x \<Rightarrow> Inr (float_of x))"

section \<open>Type coercion of imported CSV fields\<close>

text \<open>
  \<^verbatim>\<open>import_from_csv\<close>, lines 611 to 614:
  \<^verbatim>\<open>
  if value and value.replace('.', '', 1).replace('-', '', 1).isdigit():
      converted_row[key] = float(value) if '.' in value else int(value)
  else:
      converted_row[key] = value
  \<close>
  \<open>numeric_test\<close> is the condition, \<open>coerce\<close> the value stored (or the exception).
\<close>

definition numeric_test :: "string \<Rightarrow> bool" where
  "numeric_test v =
     (v \<noteq> [] \<and> isdigit (replace_first CHR ''-'' (replace_first CHR ''.'' v)))"

definition coerce :: "string \<Rightarrow> error + pyval" where
  "coerce v =
     (if numeric_test v
      then (if CHR ''.'' \<in> set v
            then (case py_float v of Inl e \<Rightarrow> Inl e | Inr x \<Rightarrow> Inr x)
            else (case py_int v of Inl e \<Rightarrow> Inl e | Inr n \<Rightarrow> Inr (PInt n)))
      else Inr (PStr v))"

text \<open>
  \<^verbatim>\<open>csv.DictReader\<close> gives every row as a mapping from the header's names to
  the raw strings (rows with fewer or more fields than the header are not modelled);
  lines 607 to 615 convert a batch of them, field by field and row by
  row, and an exception of a conversion leaves both loops.
\<close>

fun convert_row :: "(string \<times> string) list \<Rightarrow> row \<Rightarrow> error + row" where
  "convert_row [] converted_row = Inr converted_row"
| "convert_row ((key, v) # rest) converted_row =
     (case coerce v of
        Inl e \<Rightarrow> Inl e
      | Inr x \<Rightarrow> convert_row rest (AList.update key x converted_row))"

fun convert_batch :: "(string \<times> string) list list \<Rightarrow> row list \<Rightarrow> error + row list" where
  "convert_batch [] converted_batch = Inr converted_batch"
| "convert_batch (r # batch) converted_batch =
     (case convert_row r [] of
        Inl e \<Rightarrow> Inl e
      | Inr converted_row \<Rightarrow> convert_batch batch (converted_batch @ [converted_row]))"

section \<open>The HTTP transport\<close>

text \<open>
  The client talks to the server through \<^verbatim>\<open>requests\<close>. A request is recorded
  with its method, URL, query parameters and JSON body (the headers, which no branch of
  the code below depends on, are left out). The server is any function from the
  requests made so far and the current request to a reply: a status with a body, which
  is a JSON list of rows or not JSON at all (an empty body, as with status 204, included),
  or no reply at all (the transport then raises). Every operation takes the list of
  requests sent so far and returns its result with the extended list.
\<close>

datatype qval = QStr string | QInt int

type_synonym params = "(string \<times> qval) list"

datatype payload = NoBody | JsonQuery string | JsonRow row | JsonRows "row list"

record request =
  http_method :: string
  http_url :: string
  http_params :: params
  http_json :: payload

datatype reply = Reply nat "row list option" | NoReply

type_synonym server = "request list \<Rightarrow> request \<Rightarrow> reply"

text \<open>What \<^verbatim>\<open>str\<close> gives for an integer.\<close>

fun str_nat :: "nat \<Rightarrow> string" where
  "str_nat n =
     (if n < 10 then [''0123456789'' ! n]
      else str_nat (n div 10) @ [''0123456789'' ! (n mod 10)])"

definition str_int :: "int \<Rightarrow> string" where
  "str_int i = (if i < 0 then CHR ''-'' # str_nat (nat (- i)) else str_nat (nat i))"

text \<open>
  \<^verbatim>\<open>requests\<close> writes a \<^verbatim>\<open>params\<close> mapping into the URL with every value
  as its \<^verbatim>\<open>str\<close>.
\<close>

definition str_qval :: "qval \<Rightarrow> string" where
  "str_qval v = (case v of QStr s \<Rightarrow> s | QInt i \<Rightarrow> str_int i)"

definition encode_params :: "params \<Rightarrow> (string \<times> string) list" where
  "encode_params ps = map (\<lambda>(k, v). (k, str_qval v)) ps"

text \<open>
  \<^verbatim>\<open>requests\<close> serialises a \<^verbatim>\<open>json=\<close> body before it sends anything,
  and refuses the floats that JSON cannot write (infinities and not-a-number) with
  \<^verbatim>\<open>InvalidJSONError\<close>.
\<close>

definition json_value :: "pyval \<Rightarrow> bool" where
  "json_value v = (case v of PInfinity _ \<Rightarrow> False | PNaN \<Rightarrow> False | _ \<Rightarrow> True)"

definition json_row :: "row \<Rightarrow> bool" where
  "json_row r = list_all (\<lambda>kv. json_value (snd kv)) r"

definition json_payload :: "payload \<Rightarrow> bool" where
  "json_payload b =
     (case b of
        NoBody \<Rightarrow> True
      | JsonQuery _ \<Rightarrow> True
      | JsonRow r \<Rightarrow> json_row r
      | JsonRows rs \<Rightarrow> list_all json_row rs)"

text \<open>\<^verbatim>\<open>requests.get\<close>, \<^verbatim>\<open>post\<close>, \<^verbatim>\<open>patch\<close>, \<^verbatim>\<open>delete\<close>.\<close>

definition http :: "server \<Rightarrow> request \<Rightarrow> request list \<Rightarrow> (error + nat \<times> row list option) \<times> request list" where
  "http srv rq sent =
     (if \<not> json_payload (http_json rq) then (Inl InvalidJSONError, sent)
      else (case srv sent rq of
              NoReply \<Rightarrow> (Inl ConnectionError, sent @ [rq])
            | Reply st body \<Rightarrow> (Inr (st, body), sent @ [rq])))"

definition raise_for_status :: "nat \<Rightarrow> error + unit" where
  "raise_for_status st = (if 400 \<le> st \<and> st < 600 then Inl (HTTPError st) else Inr ())"

text \<open>
  The three lines every data operation ends with:
  \<^verbatim>\<open>response = requests.<method>(...); response.raise_for_status(); result = response.json()\<close>.
  \<^verbatim>\<open>response.json()\<close> raises \<^verbatim>\<open>JSONDecodeError\<close> when the body is not JSON.
\<close>

definition fetch_json :: "server \<Rightarrow> request \<Rightarrow> request list \<Rightarrow> (error + row list) \<times> request list" where
  "fetch_json srv rq sent =
     (case http srv rq sent of
        (Inl e, sent') \<Rightarrow> (Inl e, sent')
      | (Inr (st, body), sent') \<Rightarrow>
          (case raise_for_status st of
             Inl e \<Rightarrow> (Inl e, sent')
           | Inr _ \<Rightarrow>
               (case body of
                  None \<Rightarrow> (Inl JSONDecodeError, sent')
                | Some js \<Rightarrow> (Inr js, sent'))))"

section \<open>Row operations\<close>

text \<open>
  \<^verbatim>\<open>for key, value in filters.items(): params[key] = value\<close>, the loop shared by
  \<^verbatim>\<open>select\<close>, \<^verbatim>\<open>update\<close>, \<^verbatim>\<open>delete\<close> and \<^verbatim>\<open>count\<close>.
\<close>

fun add_filters :: "params \<Rightarrow> params \<Rightarrow> params" where
  "add_filters [] ps = ps"
| "add_filters ((key, v) # rest) ps = add_filters rest (AList.update key v ps)"

text \<open>
  \<^verbatim>\<open>insert\<close> (lines 306 to 322) with a list of rows, as both importers call it
  (\<^verbatim>\<open>is_single\<close> is false).
\<close>

definition insert_request :: "string \<Rightarrow> string \<Rightarrow> row list \<Rightarrow> request" where
  "insert_request self_url table_name data =
     \<lparr>http_method = ''POST'', http_url = self_url @ ''/rest/v1/'' @ table_name,
      http_params = [], http_json = JsonRows data\<rparr>"

definition insert_rows :: "string \<Rightarrow> server \<Rightarrow> string \<Rightarrow> row list \<Rightarrow> request list \<Rightarrow> (error + row list) \<times> request list" where
  "insert_rows self_url srv table_name data sent =
     fetch_json srv (insert_request self_url table_name data) sent"

text \<open>
  The query parameters of \<^verbatim>\<open>select\<close> (lines 358 to 373). \<^verbatim>\<open>if filters:\<close>,
  \<^verbatim>\<open>if order:\<close>, \<^verbatim>\<open>if limit:\<close> and \<^verbatim>\<open>if offset:\<close> test truthiness: a
  mapping that is given and non-empty, a string that is given and non-empty, an integer
  that is given and not zero.
\<close>

definition select_params :: "string \<Rightarrow> params option \<Rightarrow> string option \<Rightarrow> int option \<Rightarrow> int option \<Rightarrow> params" where
  "select_params columns filters order limit offset =
     (let p0 = [(''select'', QStr columns)];
          p1 = (case filters of None \<Rightarrow> p0 | Some f \<Rightarrow> if f \<noteq> [] then add_filters f p0 else p0);
          p2 = (case order of None \<Rightarrow> p1
                | Some ord \<Rightarrow> if ord \<noteq> [] then AList.update ''order'' (QStr ord) p1 else p1);
          p3 = (case limit of None \<Rightarrow> p2
                | Some n \<Rightarrow> if n \<noteq> 0 then AList.update ''limit'' (QInt n) p2 else p2);
          p4 = (case offset of None \<Rightarrow> p3
                | Some n \<Rightarrow> if n \<noteq> 0 then AList.update ''offset'' (QInt n) p3 else p3)
      in p4)"

definition select :: "string \<Rightarrow> server \<Rightarrow> string \<Rightarrow> string \<Rightarrow> params option \<Rightarrow> string option \<Rightarrow> int option \<Rightarrow> int option \<Rightarrow> request list \<Rightarrow> (error + row list) \<times> request list" where
  "select self_url srv table_name columns filters order limit offset sent =
     fetch_json srv
       \<lparr>http_method = ''GET'', http_url = self_url @ ''/rest/v1/'' @ table_name,
        http_params = select_params columns filters order limit offset,
        http_json = NoBody\<rparr> sent"

text \<open>\<^verbatim>\<open>update\<close> (lines 402 to 417) and \<^verbatim>\<open>delete\<close> (lines 436 to 451).\<close>

definition update :: "string \<Rightarrow> server \<Rightarrow> string \<Rightarrow> row \<Rightarrow> params \<Rightarrow> request list \<Rightarrow> (error + row list) \<times> request list" where
  "update self_url srv table_name data filters sent =
     fetch_json srv
       \<lparr>http_method = ''PATCH'', http_url = self_url @ ''/rest/v1/'' @ table_name,
        http_params = add_filters filters [], http_json = JsonRow data\<rparr> sent"


section \<open>Batch import\<close>




function import_csv_loop :: "string \<Rightarrow> server \<Rightarrow> string \<Rightarrow> (string \<times> string) list list \<Rightarrow> nat \<Rightarrow> nat \<Rightarrow> nat \<Rightarrow> request list \<Rightarrow> (error + nat) \<times> request list" where
  "import_csv_loop self_url srv table_name data batch_size i tot sent =
     (if batch_size = 0 \<or> length data \<le> i then (Inr tot, sent)
      else
        (let batch = take batch_size (drop i data)
         in case convert_batch batch [] of
              Inl e \<Rightarrow> (Inl e, sent)
            | Inr converted_batch \<Rightarrow>
                (case insert_rows self_url srv table_name converted_batch sent of
                   (Inl e, sent') \<Rightarrow> (Inl e, sent')
                 | (Inr _, sent') \<Rightarrow>
                     import_csv_loop self_url srv table_name data batch_size (i + batch_size)
                       (tot + length converted_batch) sent')))"
  by pat_completeness auto
termination
  by (relation "measure (\<lambda>(self_url, srv, table_name, data, batch_size, i, tot, sent). length data - i)") auto

definition import_from_csv :: "string \<Rightarrow> server \<Rightarrow> string \<Rightarrow> (string \<times> string) list list \<Rightarrow> int \<Rightarrow> request list \<Rightarrow> (error + nat) \<times> request list" where
  "import_from_csv self_url srv table_name data batch_size sent =
     (if data = [] then (Inr 0, sent)
      else if batch_size = 0 then (Inl ValueError, sent)
      else if batch_size < 0 then (Inr 0, sent)
      else import_csv_loop self_url srv table_name data (nat batch_size) 0 0 sent)"

section \<open>Table creation\<close>

text \<open>\<^verbatim>\<open>str.upper()\<close> and \<^verbatim>\<open>str.lower()\<close> on ASCII text.\<close>

definition upper_char :: "char \<Rightarrow> char" where
  "upper_char c =
     (case map_of (zip ''abcdefghijklmnopqrstuvwxyz'' ''ABCDEFGHIJKLMNOPQRSTUVWXYZ'') c of
        None \<Rightarrow> c | Some u \<Rightarrow> u)"

definition lower_char :: "char \<Rightarrow> char" where
  "lower_char c =
     (case map_of (zip ''ABCDEFGHIJKLMNOPQRSTUVWXYZ'' ''abcdefghijklmnopqrstuvwxyz'') c of
        None \<Rightarrow> c | Some l \<Rightarrow> l)"

definition upper :: "string \<Rightarrow> string" where
  "upper s = map upper_char s"

definition lower :: "string \<Rightarrow> string" where
  "lower s = map lower_char s"

text \<open>\<^verbatim>\<open>sep.join(xs)\<close>.\<close>

fun join :: "string \<Rightarrow> string list \<Rightarrow> string" where
  "join sep [] = []"
| "join sep [x] = x"
| "join sep (x # y # ys) = x @ sep @ join sep (y # ys)"

text \<open>
  A column is the dictionary the caller passes. \<^verbatim>\<open>col["name"]\<close> and
  \<^verbatim>\<open>col["type"]\<close> raise \<^verbatim>\<open>KeyError\<close> when the key is missing, so both are
  optional here. The three flags are read with \<^verbatim>\<open>col.get\<close> and tested for
  truth: a missing key and \<^verbatim>\<open>False\<close> behave alike and are both \<open>False\<close>.
  A default is a string or an integer.
\<close>

datatype defval = DStr string | DInt int

record column =
  col_name :: "string option"
  col_type :: "string option"
  isPrimaryKey :: bool
  isIdentity :: bool
  isNullable :: bool
  defaultValue :: "defval option"

text \<open>The truth value Python gives a default in \<^verbatim>\<open>if col.get("defaultValue")\<close>.\<close>

definition truthy :: "defval \<Rightarrow> bool" where
  "truthy d = (case d of DStr s \<Rightarrow> s \<noteq> [] | DInt n \<Rightarrow> n \<noteq> 0)"

text \<open>Lines 160 to 167: the text appended for a default that passed the test.\<close>

definition default_clause :: "defval \<Rightarrow> string" where
  "default_clause default_val =
     (case default_val of
        DStr s \<Rightarrow>
          if s = ''now()'' then '' DEFAULT NOW()''
          else if \<not> isdigit s then '' DEFAULT '' @ [CHR 0x27] @ s @ [CHR 0x27]
          else '' DEFAULT '' @ s
      | DInt n \<Rightarrow> '' DEFAULT '' @ str_int n)"

text \<open>Lines 141 to 167: the clause of one column.\<close>

definition column_def :: "column \<Rightarrow> error + string" where
  \<open>column_def col =
     (case col_name col of
        None \<Rightarrow> Inl (KeyError ''name'')
      | Some name \<Rightarrow>
          (case col_type col of
             None \<Rightarrow> Inl (KeyError ''type'')
           | Some ty \<Rightarrow>
               (let d0 = ''    "'' @ name @ ''" '' @ upper ty;
                    d1 = (if isPrimaryKey col then d0 @ '' PRIMARY KEY'' else d0);
                    d2 = (if isIdentity col
                          then (if lower ty \<in> set [''integer'', ''int'']
                                then ''    "'' @ name @ ''" SERIAL PRIMARY KEY''
                                else if lower ty \<in> set [''bigint'', ''big integer'']
                                then ''    "'' @ name @ ''" BIGSERIAL PRIMARY KEY''
                                else d1 @ '' GENERATED BY DEFAULT AS IDENTITY'')
                          else d1);
                    d3 = (if \<not> isNullable col \<and> \<not> isPrimaryKey col
                          then d2 @ '' NOT NULL'' else d2);
                    d4 = (case defaultValue col of
                            None \<Rightarrow> d3
                          | Some default_val \<Rightarrow>
                              if truthy default_val then d3 @ default_clause default_val else d3)
                in Inr d4)))\<close>

text \<open>
  The loop of lines 139 to 169, \<^verbatim>\<open>column_defs.append(col_def)\<close> for every column
  in turn; a \<^verbatim>\<open>KeyError\<close> leaves it.
\<close>

fun column_defs_loop :: "column list \<Rightarrow> string list \<Rightarrow> error + string list" where
  "column_defs_loop [] column_defs = Inr column_defs"
| "column_defs_loop (col # rest) column_defs =
     (case column_def col of
        Inl e \<Rightarrow> Inl e
      | Inr col_def \<Rightarrow> column_defs_loop rest (column_defs @ [col_def]))"

text \<open>Line 172.\<close>

definition full_table_name :: "string \<Rightarrow> string \<Rightarrow> string" where
  \<open>full_table_name schema table_name =
     (if schema \<noteq> ''public'' then ''"'' @ schema @ ''"."'' @ table_name @ ''"''
      else ''"'' @ table_name @ ''"'')\<close>

text \<open>Lines 139 to 173: the statement \<^verbatim>\<open>create_table\<close> builds.\<close>

definition create_table_sql :: "string \<Rightarrow> column list \<Rightarrow> string \<Rightarrow> error + string" where
  "create_table_sql table_name columns schema =
     (case column_defs_loop columns [] of
        Inl e \<Rightarrow> Inl e
      | Inr column_defs \<Rightarrow>
          Inr (''CREATE TABLE '' @ full_table_name schema table_name @ '' ('' @ [CHR 0x0A]
               @ join ('','' @ [CHR 0x0A]) column_defs @ [CHR 0x0A] @ '');''))"

text \<open>
  \<^verbatim>\<open>create_table\<close>: the statement is posted to the metadata API's query endpoint
  and the status checked (the body of the reply is not read); the pause that follows is
  not modelled.
\<close>

definition create_table :: "string \<Rightarrow> server \<Rightarrow> string \<Rightarrow> column list \<Rightarrow> string \<Rightarrow> request list \<Rightarrow> (error + string \<times> column list) \<times> request list" where
  "create_table self_url srv table_name columns schema sent =
     (case create_table_sql table_name columns schema of
        Inl e \<Rightarrow> (Inl e, sent)
      | Inr sql \<Rightarrow>
          (case http srv \<lparr>http_method = ''POST'', http_url = self_url @ ''/pg/query'',
                          http_params = [], http_json = JsonQuery sql\<rparr> sent of
             (Inl e, sent') \<Rightarrow> (Inl e, sent')
           | (Inr (st, body), sent') \<Rightarrow>
               (case raise_for_status st of
                  Inl e \<Rightarrow> (Inl e, sent')
                | Inr _ \<Rightarrow> (Inr (table_name, columns), sent'))))"


section \<open>Observing the requests\<close>


section \<open>The specification's eligibility rule\<close>

text \<open>
  The rule of the specification (section 4.3), in its own words, to compare with
  \<open>numeric_test\<close>: a value is eligible for numeric coercion if, after removing at most
  one \<^verbatim>\<open>.\<close> and at most one leading \<^verbatim>\<open>-\<close>, every remaining character is a
  digit; the empty string is never eligible.
\<close>

definition strip_leading_minus :: "string \<Rightarrow> string" where
  "strip_leading_minus s = (case s of [] \<Rightarrow> [] | c # r \<Rightarrow> if c = CHR ''-'' then r else s)"

definition spec_eligible :: "string \<Rightarrow> bool" where
  "spec_eligible s =
     (s \<noteq> [] \<and> list_all isdigit_char (strip_leading_minus (remove1 CHR ''.'' s)))"

text \<open>
  The number a decimal literal denotes (an optional leading \<^verbatim>\<open>-\<close>, digits, at most
  one point), to state which value the coercion returns.
\<close>

definition literal_value :: "string \<Rightarrow> rat" where
  "literal_value s =
     (let body = strip_leading_minus s;
          frac = drop 1 (dropWhile (\<lambda>c. c \<noteq> CHR ''.'') body)
      in (if s \<noteq> [] \<and> hd s = CHR ''-'' then - 1 else 1)
         * of_nat (decimal (filter isdigit_char body)) / 10 ^ length frac)"

section \<open>Query parameters\<close>

lemmas str_defs = isdigit_def isdigit_char_def replace_first_def decimal_def digit_value_def

lemma map_of_add_filters:
  "distinct (map fst fs) \<Longrightarrow>
   map_of (add_filters fs ps) k = (case map_of fs k of Some v \<Rightarrow> Some v | None \<Rightarrow> map_of ps k)"
proof (induction fs arbitrary: ps)
  case Nil
  then show ?case by simp
next
  case (Cons kv rest)
  obtain a b where kv: "kv = (a, b)" by (cases kv)
  from Cons.prems kv have notin: "map_of rest a = None" and d: "distinct (map fst rest)"
    by (auto simp: map_of_eq_None_iff)
  show ?case
    using Cons.IH [OF d, of "AList.update a b ps"] notin
    by (auto simp: kv update_conv' split: option.splits)
qed

lemma keys_add_filters: "fst ` set (add_filters fs ps) = fst ` set ps \<union> fst ` set fs"
  by (induction fs ps rule: add_filters.induct) (auto simp: dom_update)



lemma map_of_encode_params: "map_of (encode_params ps) k = map_option str_qval (map_of ps k)"
  by (simp add: encode_params_def map_of_map)



lemma map_of_select_params:
  assumes "distinct (map fst filters)"
  shows "map_of (select_params columns (Some filters) order limit offset) k =
     (if k = ''offset'' \<and> offset \<noteq> None \<and> offset \<noteq> Some 0 then map_option QInt offset
      else if k = ''limit'' \<and> limit \<noteq> None \<and> limit \<noteq> Some 0 then map_option QInt limit
      else if k = ''order'' \<and> order \<noteq> None \<and> order \<noteq> Some [] then map_option QStr order
      else (case map_of filters k of
              Some v \<Rightarrow> Some v
            | None \<Rightarrow> if k = ''select'' then Some (QStr columns) else None))"
proof -
  define p1 where "p1 = (if filters \<noteq> [] then add_filters filters [(''select'', QStr columns)]
                         else [(''select'', QStr columns)])"
  define p2 where "p2 = (case order of None \<Rightarrow> p1
                         | Some ord \<Rightarrow> if ord \<noteq> [] then AList.update ''order'' (QStr ord) p1 else p1)"
  define p3 where "p3 = (case limit of None \<Rightarrow> p2
                         | Some n \<Rightarrow> if n \<noteq> 0 then AList.update ''limit'' (QInt n) p2 else p2)"
  define p4 where "p4 = (case offset of None \<Rightarrow> p3
                         | Some n \<Rightarrow> if n \<noteq> 0 then AList.update ''offset'' (QInt n) p3 else p3)"
  have sp: "select_params columns (Some filters) order limit offset = p4"
    by (simp only: select_params_def Let_def p1_def p2_def p3_def p4_def option.case)
  have same: "p1 = add_filters filters [(''select'', QStr columns)]"
    by (auto simp: p1_def)
  have m1: "map_of p1 k =
        (case map_of filters k of
           Some v \<Rightarrow> Some v
         | None \<Rightarrow> if k = ''select'' then Some (QStr columns) else None)"
    unfolding same
    by (simp add: map_of_add_filters [OF assms] split: option.splits)
  have m2: "map_of p2 k =
        (if k = ''order'' \<and> order \<noteq> None \<and> order \<noteq> Some [] then map_option QStr order
         else map_of p1 k)"
    by (cases order) (simp_all add: p2_def update_conv')
  have m3: "map_of p3 k =
        (if k = ''limit'' \<and> limit \<noteq> None \<and> limit \<noteq> Some 0 then map_option QInt limit
         else map_of p2 k)"
    by (cases limit) (simp_all add: p3_def update_conv')
  have m4: "map_of p4 k =
        (if k = ''offset'' \<and> offset \<noteq> None \<and> offset \<noteq> Some 0 then map_option QInt offset
         else map_of p3 k)"
    by (cases offset) (simp_all add: p4_def update_conv')
  show ?thesis
    by (simp only: sp m4 m3 m2 m1)
qed

lemma keys_select_params:
  "fst ` set (select_params columns (Some filters) order limit offset) =
     {''select''} \<union> fst ` set filters
     \<union> (if order \<noteq> None \<and> order \<noteq> Some [] then {''order''} else {})
     \<union> (if limit \<noteq> None \<and> limit \<noteq> Some 0 then {''limit''} else {})
     \<union> (if offset \<noteq> None \<and> offset \<noteq> Some 0 then {''offset''} else {})"
  unfolding select_params_def Let_def
  by (auto simp: dom_update keys_add_filters split: option.splits)

lemma keys_encode_params: "fst ` set (encode_params ps) = fst ` set ps"
  by (force simp: encode_params_def)

text \<open>
  Claim C6 says the \<^verbatim>\<open>select\<close> parameter always equals the requested columns.
  With a filter named \<^verbatim>\<open>select\<close> it does not: the filter's value is sent.
\<close>

theorem select_params_select_counterexample:
  "map_of (encode_params (select_params ''*'' (Some [(''select'', QStr ''id'')]) None None None)) ''select''
     \<noteq> Some ''*''"
  by (simp add: select_params_def encode_params_def str_qval_def)

text \<open>
  Claim C6, as the code has it. The query of \<^verbatim>\<open>select\<close>, as
  \<^verbatim>\<open>requests\<close> writes it: the \<^verbatim>\<open>select\<close> parameter is the requested
  columns unless a filter is named \<^verbatim>\<open>select\<close>; every filter entry is copied
  as it is, unless it is named \<^verbatim>\<open>order\<close>, \<^verbatim>\<open>limit\<close> or
  \<^verbatim>\<open>offset\<close> and the argument of that name is given (non-empty, non-zero);
  \<^verbatim>\<open>order\<close> is included as it is when given and non-empty; \<^verbatim>\<open>limit\<close> and
  \<^verbatim>\<open>offset\<close> are included as their decimal strings when given and not zero;
  there are no other keys; no filters and an empty filter mapping give the same
  parameters; and the example of the specification gives exactly the four pairs
  \<^verbatim>\<open>select=*\<close>, \<^verbatim>\<open>price=gte.100\<close>, \<^verbatim>\<open>order=created_at.desc\<close>,
  \<^verbatim>\<open>limit=10\<close>.
\<close>

theorem select_params_encoding:
  assumes "distinct (map fst filters)"
  shows "(''select'' \<notin> fst ` set filters \<longrightarrow>
            map_of (encode_params (select_params columns (Some filters) order limit offset)) ''select'' = Some columns)
       \<and> (\<forall>k v. (k, v) \<in> set filters
              \<and> \<not> (k = ''order'' \<and> order \<noteq> None \<and> order \<noteq> Some [])
              \<and> \<not> (k = ''limit'' \<and> limit \<noteq> None \<and> limit \<noteq> Some 0)
              \<and> \<not> (k = ''offset'' \<and> offset \<noteq> None \<and> offset \<noteq> Some 0) \<longrightarrow>
            map_of (encode_params (select_params columns (Some filters) order limit offset)) k = Some (str_qval v))
       \<and> (\<forall>ord. order = Some ord \<and> ord \<noteq> [] \<longrightarrow>
            map_of (encode_params (select_params columns (Some filters) order limit offset)) ''order'' = Some ord)
       \<and> (\<forall>n. limit = Some n \<and> n \<noteq> 0 \<longrightarrow>
            map_of (encode_params (select_params columns (Some filters) order limit offset)) ''limit'' = Some (str_int n))
       \<and> (\<forall>n. offset = Some n \<and> n \<noteq> 0 \<longrightarrow>
            map_of (encode_params (select_params columns (Some filters) order limit offset)) ''offset'' = Some (str_int n))
       \<and> fst ` set (encode_params (select_params columns (Some filters) order limit offset)) =
            {''select''} \<union> fst ` set filters
            \<union> (if order \<noteq> None \<and> order \<noteq> Some [] then {''order''} else {})
            \<union> (if limit \<noteq> None \<and> limit \<noteq> Some 0 then {''limit''} else {})
            \<union> (if offset \<noteq> None \<and> offset \<noteq> Some 0 then {''offset''} else {})
       \<and> select_params columns None order limit offset = select_params columns (Some []) order limit offset
       \<and> encode_params (select_params ''*'' (Some [(''price'', QStr ''gte.100'')])
              (Some ''created_at.desc'') (Some 10) None) =
            [(''select'', ''*''), (''price'', ''gte.100''), (''order'', ''created_at.desc''), (''limit'', ''10'')]"
proof -
  let ?E = "encode_params (select_params columns (Some filters) order limit offset)"
  note look = map_of_encode_params map_of_select_params [OF assms]
  have c1: "map_of ?E ''select'' = Some columns" if "''select'' \<notin> fst ` set filters"
  proof -
    from that have "map_of filters ''select'' = None" by (simp add: map_of_eq_None_iff)
    then show ?thesis by (simp add: look str_qval_def)
  qed
  have c2: "map_of ?E k = Some (str_qval v)"
    if "(k, v) \<in> set filters"
      "\<not> (k = ''order'' \<and> order \<noteq> None \<and> order \<noteq> Some [])"
      "\<not> (k = ''limit'' \<and> limit \<noteq> None \<and> limit \<noteq> Some 0)"
      "\<not> (k = ''offset'' \<and> offset \<noteq> None \<and> offset \<noteq> Some 0)" for k v
  proof -
    from that(1) assms have "map_of filters k = Some v" by simp
    with that(2-4) show ?thesis by (auto simp: look)
  qed
  have c3: "map_of ?E ''order'' = Some ord" if "order = Some ord" "ord \<noteq> []" for ord
    using that by (simp add: look str_qval_def)
  have c4: "map_of ?E ''limit'' = Some (str_int n)" if "limit = Some n" "n \<noteq> 0" for n
    using that by (simp add: look str_qval_def)
  have c5: "map_of ?E ''offset'' = Some (str_int n)" if "offset = Some n" "n \<noteq> 0" for n
    using that by (simp add: look str_qval_def)
  have c6: "fst ` set ?E =
            {''select''} \<union> fst ` set filters
            \<union> (if order \<noteq> None \<and> order \<noteq> Some [] then {''order''} else {})
            \<union> (if limit \<noteq> None \<and> limit \<noteq> Some 0 then {''limit''} else {})
            \<union> (if offset \<noteq> None \<and> offset \<noteq> Some 0 then {''offset''} else {})"
    by (simp only: keys_encode_params keys_select_params)
  have c7: "select_params columns None order limit offset = select_params columns (Some []) order limit offset"
    by (simp add: select_params_def)
  have c8: "encode_params (select_params ''*'' (Some [(''price'', QStr ''gte.100'')])
              (Some ''created_at.desc'') (Some 10) None) =
            [(''select'', ''*''), (''price'', ''gte.100''), (''order'', ''created_at.desc''), (''limit'', ''10'')]"
    by (simp add: select_params_def encode_params_def str_qval_def str_int_def)
  from c1 c2 c3 c4 c5 c6 c7 c8 show ?thesis by blast
qed

theorem select_params_encoding_witness:
  "map_of (encode_params (select_params ''id,name'' (Some [(''price'', QStr ''gte.100''), (''limit'', QInt 3)])
       (Some ''created_at.desc'') None (Some 20))) ''select'' = Some ''id,name''
   \<and> map_of (encode_params (select_params ''id,name'' (Some [(''price'', QStr ''gte.100''), (''limit'', QInt 3)])
       (Some ''created_at.desc'') None (Some 20))) ''price'' = Some ''gte.100''
   \<and> map_of (encode_params (select_params ''id,name'' (Some [(''price'', QStr ''gte.100''), (''limit'', QInt 3)])
       (Some ''created_at.desc'') None (Some 20))) ''limit'' = Some ''3''
   \<and> map_of (encode_params (select_params ''id,name'' (Some [(''price'', QStr ''gte.100''), (''limit'', QInt 3)])
       (Some ''created_at.desc'') None (Some 20))) ''order'' = Some ''created_at.desc''
   \<and> map_of (encode_params (select_params ''id,name'' (Some [(''price'', QStr ''gte.100''), (''limit'', QInt 3)])
       (Some ''created_at.desc'') None (Some 20))) ''offset'' = Some ''20''"
  using select_params_encoding [of "[(''price'', QStr ''gte.100''), (''limit'', QInt 3)]"
      "''id,name''" "Some ''created_at.desc''" None "Some 20"]
  by (simp add: str_qval_def str_int_def)

section \<open>Coercion of CSV fields\<close>

lemma numeric_test_chars:
  assumes "numeric_test v" and "c \<in> set v"
  shows "c = CHR ''.'' \<or> c = CHR ''-'' \<or> isdigit_char c"
proof (rule ccontr)
  assume "\<not> ?thesis"
  then have "c \<noteq> CHR ''.''" "c \<noteq> CHR ''-''" "\<not> isdigit_char c" by auto
  with assms(2) have "c \<in> set (remove1 CHR ''-'' (remove1 CHR ''.'' v))" by simp
  with assms(1) have "isdigit_char c"
    by (auto simp: numeric_test_def isdigit_def replace_first_def list_all_iff)
  with \<open>\<not> isdigit_char c\<close> show False by simp
qed

lemma not_digit_minus: "\<not> isdigit_char CHR ''-''"
  by (simp add: isdigit_char_def)

lemma not_digit_plus: "\<not> isdigit_char CHR ''+''"
  by (simp add: isdigit_char_def)

lemma not_digit_dot: "\<not> isdigit_char CHR ''.''"
  by (simp add: isdigit_char_def)

lemma numeric_test_head:
  assumes "numeric_test (c # r)" and "CHR ''-'' \<in> set r"
  shows "c \<noteq> CHR ''-''" and "c \<noteq> CHR ''+''"
proof -
  show "c \<noteq> CHR ''-''"
  proof
    assume c: "c = CHR ''-''"
    from assms(2) have "CHR ''-'' \<in> set (remove1 CHR ''.'' r)" by simp
    with assms(1) c have "isdigit_char CHR ''-''"
      by (auto simp: numeric_test_def isdigit_def replace_first_def list_all_iff)
    then show False by (simp add: not_digit_minus)
  qed
  show "c \<noteq> CHR ''+''"
    using numeric_test_chars [OF assms(1), of c] by (auto simp: not_digit_plus)
qed

lemma split_at_dot:
  "CHR ''.'' \<in> set r \<Longrightarrow>
   dropWhile (\<lambda>c. c \<noteq> CHR ''.'') r = CHR ''.'' # drop 1 (dropWhile (\<lambda>c. c \<noteq> CHR ''.'') r)"
  by (induction r) auto

lemma unsigned_float_minus:
  assumes "CHR ''-'' \<in> set b"
  shows "unsigned_float b = Inl ValueError"
proof -
  let ?ip = "takeWhile (\<lambda>c. c \<noteq> CHR ''.'') b"
  let ?dw = "dropWhile (\<lambda>c. c \<noteq> CHR ''.'') b"
  have "b = ?ip @ ?dw" by simp
  with assms have "CHR ''-'' \<in> set ?ip \<or> CHR ''-'' \<in> set ?dw"
    by (metis Un_iff set_append)
  moreover have "CHR ''-'' \<in> set (drop 1 ?dw)" if "CHR ''-'' \<in> set ?dw"
  proof (cases ?dw)
    case Nil
    with that show ?thesis by simp
  next
    case (Cons d ds)
    then have "d = CHR ''.''" using hd_dropWhile [of "\<lambda>c. c \<noteq> CHR ''.''" b] by auto
    with that Cons show ?thesis by auto
  qed
  ultimately have "\<not> (list_all isdigit_char ?ip \<and> list_all isdigit_char (drop 1 ?dw))"
    using not_digit_minus by (auto simp: list_all_iff)
  then show ?thesis by (auto simp: unsigned_float_def Let_def)
qed

lemma coerce_inner_minus:
  assumes "numeric_test v" and "CHR ''-'' \<in> set (tl v)"
  shows "coerce v = Inl ValueError"
proof -
  from assms(2) obtain c r where v: "v = c # r" and r: "CHR ''-'' \<in> set r"
    by (cases v) auto
  from numeric_test_head [OF assms(1) [unfolded v] r] have c: "c \<noteq> CHR ''-''" "c \<noteq> CHR ''+''" .
  from r have nd: "\<not> isdigit v" using not_digit_minus by (auto simp: isdigit_def v list_all_iff)
  have i: "py_int v = Inl ValueError" using c nd by (simp add: py_int_def v)
  have "unsigned_float v = Inl ValueError" using r by (intro unsigned_float_minus) (simp add: v)
  then have f: "py_float v = Inl ValueError"
    using c by (simp add: py_float_def float_literal_def v)
  show ?thesis using assms(1) i f by (simp add: coerce_def)
qed

lemma coerce_error: "coerce v = Inl e \<Longrightarrow> e = ValueError"
  by (auto simp: coerce_def py_int_def py_float_def float_literal_def unsigned_float_def Let_def
      split: if_splits sum.splits list.splits)

lemma convert_row_error:
  "(key, v) \<in> set r \<Longrightarrow> coerce v = Inl ValueError \<Longrightarrow> convert_row r acc = Inl ValueError"
proof (induction r acc rule: convert_row.induct)
  case (1 acc)
  then show ?case by simp
next
  case (2 k w rest acc)
  show ?case
  proof (cases "coerce w")
    case (Inl e)
    then show ?thesis using coerce_error [OF Inl] by simp
  next
    case (Inr x)
    with "2.prems" have "(key, v) \<in> set rest" by auto
    with "2.IH" [OF Inr] "2.prems"(2) Inr show ?thesis by simp
  qed
qed

lemma convert_row_only_ValueError: "convert_row r acc = Inl e \<Longrightarrow> e = ValueError"
  by (induction r acc rule: convert_row.induct) (auto split: sum.splits dest: coerce_error)

lemma convert_batch_error:
  "r \<in> set batch \<Longrightarrow> convert_row r [] = Inl ValueError \<Longrightarrow> convert_batch batch acc = Inl ValueError"
proof (induction batch acc rule: convert_batch.induct)
  case (1 acc)
  then show ?case by simp
next
  case (2 r' batch acc)
  show ?case
  proof (cases "convert_row r' []")
    case (Inl e)
    then show ?thesis using convert_row_only_ValueError [OF Inl] by simp
  next
    case (Inr x)
    with "2.prems" have "r \<in> set batch" by auto
    with "2.IH" [OF Inr] "2.prems"(2) Inr show ?thesis by simp
  qed
qed

lemma import_from_csv_bad_field:
  assumes "coerce v = Inl ValueError" and "(key, v) \<in> set r" and "r \<in> set (take (nat B) data)"
    and "0 < B"
  shows "import_from_csv self_url srv table_name data B sent = (Inl ValueError, sent)"
proof -
  from assms(3) have ne: "data \<noteq> []" by auto
  have cb: "convert_batch (take (nat B) data) [] = Inl ValueError"
    using convert_batch_error [OF assms(3) convert_row_error [OF assms(2) assms(1)]] .
  have "import_csv_loop self_url srv table_name data (nat B) 0 0 sent = (Inl ValueError, sent)"
    using ne assms(4) cb by (subst import_csv_loop.simps) (simp add: Let_def)
  then show ?thesis using ne assms(4) by (simp add: import_from_csv_def)
qed

text \<open>
  Claim C9. The numeric test of \<^verbatim>\<open>import_from_csv\<close> removes the first
  \<^verbatim>\<open>-\<close> wherever it stands, so it does not guarantee that the conversion
  succeeds. For every value that passes the test with its \<^verbatim>\<open>-\<close> after the first
  character (such as \<^verbatim>\<open>12-\<close> or \<^verbatim>\<open>1-2\<close>), the conversion raises
  \<^verbatim>\<open>ValueError\<close>, and an import whose first batch holds such a field ends with
  that exception, before any request, instead of keeping the string.
\<close>

theorem csv_numeric_test_admits_failing_conversion:
  assumes "numeric_test v" and "CHR ''-'' \<in> set (tl v)"
  shows "coerce v = Inl ValueError
       \<and> (\<forall>key r data B. (key, v) \<in> set r \<and> r \<in> set (take (nat B) data) \<and> 0 < B \<longrightarrow>
            import_from_csv self_url srv table_name data B sent = (Inl ValueError, sent))"
  using coerce_inner_minus [OF assms] import_from_csv_bad_field by blast

theorem csv_numeric_test_admits_failing_conversion_witness:
  "numeric_test ''12-'' \<and> coerce ''12-'' = Inl ValueError
   \<and> numeric_test ''1-2'' \<and> coerce ''1-2'' = Inl ValueError
   \<and> import_from_csv ''http://db'' (\<lambda>_ _. Reply 201 (Some [])) ''stock''
        [[(''sku'', ''A7''), (''qty'', ''12-'')]] 1000 [] = (Inl ValueError, [])"
proof -
  have t1: "numeric_test ''12-''" and t2: "numeric_test ''1-2''"
    by (simp_all add: numeric_test_def str_defs)
  have m1: "CHR ''-'' \<in> set (tl ''12-'')" and m2: "CHR ''-'' \<in> set (tl ''1-2'')"
    by simp_all
  note a = csv_numeric_test_admits_failing_conversion [OF t1 m1, of "''http://db''" "\<lambda>_ _. Reply 201 (Some [])" "''stock''" "[]"]
  note b = csv_numeric_test_admits_failing_conversion [OF t2 m2, of "''http://db''" "\<lambda>_ _. Reply 201 (Some [])" "''stock''" "[]"]
  have h: "(''qty'', ''12-'') \<in> set [(''sku'', ''A7''), (''qty'', ''12-'')]
        \<and> [(''sku'', ''A7''), (''qty'', ''12-'')] \<in> set (take (nat 1000) [[(''sku'', ''A7''), (''qty'', ''12-'')]])
        \<and> (0::int) < 1000"
    by simp
  have "import_from_csv ''http://db'' (\<lambda>_ _. Reply 201 (Some [])) ''stock''
        [[(''sku'', ''A7''), (''qty'', ''12-'')]] 1000 [] = (Inl ValueError, [])"
    using a [THEN conjunct2, rule_format, OF h] .
  with a b t1 t2 show ?thesis by simp
qed

text \<open>
  Claim C2 says that a value whose \<^verbatim>\<open>-\<close> is not leading is not eligible and is
  returned unchanged. On the field \<^verbatim>\<open>2024-01\<close> the rule of the specification
  says not eligible, the test of the code passes, and the conversion raises
  \<^verbatim>\<open>ValueError\<close> instead of returning the string.
\<close>

theorem coerce_year_month_raises:
  "\<not> spec_eligible ''2024-01'' \<and> numeric_test ''2024-01'' \<and> coerce ''2024-01'' = Inl ValueError
   \<and> coerce ''2024-01'' \<noteq> Inr (PStr ''2024-01'')"
  by (simp add: spec_eligible_def strip_leading_minus_def coerce_def numeric_test_def py_int_def str_defs)

section \<open>Update and delete without filters\<close>





section \<open>Column clauses\<close>

lemmas case_defs = upper_def lower_def upper_char_def lower_char_def

lemma column_def_split_default:
  "column_def col =
     (case column_def (col\<lparr>defaultValue := None\<rparr>) of
        Inl e \<Rightarrow> Inl e
      | Inr base \<Rightarrow>
          Inr (base @ (case defaultValue col of
                         None \<Rightarrow> []
                       | Some d \<Rightarrow> if truthy d then default_clause d else [])))"
  by (simp add: column_def_def Let_def split: option.splits)

lemma column_def_Inl:
  "column_def col = Inl e \<longleftrightarrow>
     (col_name col = None \<and> e = KeyError ''name'')
     \<or> (col_name col \<noteq> None \<and> col_type col = None \<and> e = KeyError ''type'')"
  by (auto simp: column_def_def Let_def split: option.splits)

lemma column_def_Inr:
  "(\<exists>d. column_def col = Inr d) \<longleftrightarrow> col_name col \<noteq> None \<and> col_type col \<noteq> None"
  by (auto simp: column_def_def Let_def split: option.splits)

text \<open>
  Claim C3 says that an identity column of an integer type is rendered as the
  auto-increment shortcut and nothing more, whatever its other flags. With
  \<^verbatim>\<open>isPrimaryKey\<close> and \<^verbatim>\<open>isNullable\<close> both unset the code appends a separate
  \<^verbatim>\<open>NOT NULL\<close> to the shortcut.
\<close>

theorem identity_integer_not_null_counterexample:
  \<open>column_def \<lparr>col_name = Some ''id'', col_type = Some ''integer'', isPrimaryKey = False,
                isIdentity = True, isNullable = False, defaultValue = None\<rparr>
     = Inr ''    "id" SERIAL PRIMARY KEY NOT NULL''\<close>
  by (simp add: column_def_def case_defs)

text \<open>
  Claim C3, as the code has it. For a column with \<^verbatim>\<open>isIdentity\<close> set and a type
  that lower-cases to \<^verbatim>\<open>integer\<close>, \<^verbatim>\<open>int\<close>, \<^verbatim>\<open>bigint\<close> or
  \<^verbatim>\<open>big integer\<close>, the clause is the quoted name and the shortcut
  (\<^verbatim>\<open>SERIAL PRIMARY KEY\<close> for the first two, \<^verbatim>\<open>BIGSERIAL PRIMARY KEY\<close> for the
  others), which replaces any primary-key constraint written before; it is followed by
  \<^verbatim>\<open>NOT NULL\<close> exactly when \<^verbatim>\<open>isNullable\<close> and \<^verbatim>\<open>isPrimaryKey\<close> are
  both unset, and by the default clause when a default is given. So with
  \<^verbatim>\<open>isPrimaryKey\<close> or \<^verbatim>\<open>isNullable\<close> set and no default, the clause is
  exactly the shortcut.
\<close>

theorem identity_integer_clause:
  assumes "col_name col = Some name" and "col_type col = Some ty" and "isIdentity col"
    and "lower ty \<in> set [''integer'', ''int'', ''bigint'', ''big integer'']"
  shows \<open>column_def col =
      Inr (''    "'' @ name @ ''" ''
           @ (if lower ty \<in> set [''integer'', ''int''] then ''SERIAL'' else ''BIGSERIAL'')
           @ '' PRIMARY KEY''
           @ (if \<not> isNullable col \<and> \<not> isPrimaryKey col then '' NOT NULL'' else [])
           @ (case defaultValue col of
                None \<Rightarrow> []
              | Some d \<Rightarrow> if truthy d then default_clause d else []))\<close>
proof (cases "lower ty \<in> set [''integer'', ''int'']")
  case True
  then show ?thesis
    using assms(1-3) by (simp add: column_def_def Let_def split: option.splits)
next
  case False
  with assms(4) have "lower ty \<in> set [''bigint'', ''big integer'']" by simp
  with False show ?thesis
    using assms(1-3) by (simp add: column_def_def Let_def split: option.splits)
qed

theorem identity_integer_clause_witness:
  \<open>column_def \<lparr>col_name = Some ''id'', col_type = Some ''BigInt'', isPrimaryKey = True,
                isIdentity = True, isNullable = False, defaultValue = None\<rparr>
     = Inr ''    "id" BIGSERIAL PRIMARY KEY''
   \<and> column_def \<lparr>col_name = Some ''n'', col_type = Some ''int'', isPrimaryKey = False,
                isIdentity = True, isNullable = False, defaultValue = Some (DInt 7)\<rparr>
     = Inr ''    "n" SERIAL PRIMARY KEY NOT NULL DEFAULT 7''\<close>
proof -
  have l1: "lower ''BigInt'' \<in> set [''integer'', ''int'', ''bigint'', ''big integer'']"
    and l2: "lower ''int'' \<in> set [''integer'', ''int'', ''bigint'', ''big integer'']"
    by (simp_all add: case_defs)
  have n1: "lower ''BigInt'' \<notin> set [''integer'', ''int'']"
    and n2: "lower ''int'' \<in> set [''integer'', ''int'']"
    by (simp_all add: case_defs)
  show ?thesis
    using identity_integer_clause [of "\<lparr>col_name = Some ''id'', col_type = Some ''BigInt'', isPrimaryKey = True,
                isIdentity = True, isNullable = False, defaultValue = None\<rparr>" "''id''" "''BigInt''", OF _ _ _ l1]
      identity_integer_clause [of "\<lparr>col_name = Some ''n'', col_type = Some ''int'', isPrimaryKey = False,
                isIdentity = True, isNullable = False, defaultValue = Some (DInt 7)\<rparr>" "''n''" "''int''", OF _ _ _ l2]
      n1 n2
    by (simp add: truthy_def default_clause_def str_int_def)
qed

text \<open>
  Claim C5 says that \<^verbatim>\<open>now()\<close> is matched case-insensitively. The code compares
  the default with the string \<^verbatim>\<open>now()\<close> itself: \<^verbatim>\<open>NOW()\<close> is emitted as a
  quoted string literal.
\<close>

theorem default_now_uppercase_counterexample:
  \<open>column_def \<lparr>col_name = Some ''created_at'', col_type = Some ''timestamp'', isPrimaryKey = False,
                isIdentity = False, isNullable = True, defaultValue = Some (DStr ''NOW()'')\<rparr>
     = Inr (''    "created_at" TIMESTAMP DEFAULT '' @ [CHR 0x27] @ ''NOW()'' @ [CHR 0x27])\<close>
  by (simp add: column_def_def case_defs truthy_def default_clause_def str_defs)

text \<open>
  Claim C5, as the code has it. Let \<open>base\<close> be the clause of the column without its
  default. A default equal to \<^verbatim>\<open>now()\<close>, in exactly this spelling, appends
  \<^verbatim>\<open>DEFAULT NOW()\<close>; any other non-empty string that is not all digits appends
  the string as a quoted literal; a string of digits, or a non-zero integer, appends
  it bare; and without a default the clause is \<open>base\<close>.
\<close>

theorem default_value_clause:
  assumes "column_def (col\<lparr>defaultValue := None\<rparr>) = Inr base"
  shows "(defaultValue col = Some (DStr ''now()'') \<longrightarrow>
            column_def col = Inr (base @ '' DEFAULT NOW()''))
       \<and> (\<forall>s. defaultValue col = Some (DStr s) \<and> s \<noteq> [] \<and> s \<noteq> ''now()'' \<and> \<not> isdigit s \<longrightarrow>
            column_def col = Inr (base @ '' DEFAULT '' @ [CHR 0x27] @ s @ [CHR 0x27]))
       \<and> (\<forall>s. defaultValue col = Some (DStr s) \<and> isdigit s \<longrightarrow>
            column_def col = Inr (base @ '' DEFAULT '' @ s))
       \<and> (\<forall>n. defaultValue col = Some (DInt n) \<and> n \<noteq> 0 \<longrightarrow>
            column_def col = Inr (base @ '' DEFAULT '' @ str_int n))
       \<and> (defaultValue col = None \<longrightarrow> column_def col = Inr base)"
proof -
  note split = column_def_split_default [of col, unfolded assms, simplified]
  have now: "\<not> isdigit ''now()''" by (simp add: str_defs)
  have dig: "s \<noteq> []" if "isdigit s" for s using that by (auto simp: isdigit_def)
  show ?thesis
    using now dig by (auto simp: split truthy_def default_clause_def)
qed

theorem default_value_clause_witness:
  \<open>column_def \<lparr>col_name = Some ''created_at'', col_type = Some ''timestamp'', isPrimaryKey = False,
                isIdentity = False, isNullable = True, defaultValue = Some (DStr ''now()'')\<rparr>
     = Inr ''    "created_at" TIMESTAMP DEFAULT NOW()''
   \<and> column_def \<lparr>col_name = Some ''status'', col_type = Some ''text'', isPrimaryKey = False,
                isIdentity = False, isNullable = True, defaultValue = Some (DStr ''pending'')\<rparr>
     = Inr (''    "status" TEXT DEFAULT '' @ [CHR 0x27] @ ''pending'' @ [CHR 0x27])
   \<and> column_def \<lparr>col_name = Some ''error_count'', col_type = Some ''integer'', isPrimaryKey = False,
                isIdentity = False, isNullable = True, defaultValue = Some (DStr ''0'')\<rparr>
     = Inr ''    "error_count" INTEGER DEFAULT 0''
   \<and> column_def \<lparr>col_name = Some ''retries'', col_type = Some ''integer'', isPrimaryKey = False,
                isIdentity = False, isNullable = True, defaultValue = Some (DInt 3)\<rparr>
     = Inr ''    "retries" INTEGER DEFAULT 3''\<close>
proof -
  have b1: \<open>column_def (\<lparr>col_name = Some ''created_at'', col_type = Some ''timestamp'', isPrimaryKey = False,
                isIdentity = False, isNullable = True, defaultValue = Some (DStr ''now()'')\<rparr>\<lparr>defaultValue := None\<rparr>)
            = Inr ''    "created_at" TIMESTAMP''\<close>
    by (simp add: column_def_def case_defs)
  have b2: \<open>column_def (\<lparr>col_name = Some ''status'', col_type = Some ''text'', isPrimaryKey = False,
                isIdentity = False, isNullable = True, defaultValue = Some (DStr ''pending'')\<rparr>\<lparr>defaultValue := None\<rparr>)
            = Inr ''    "status" TEXT''\<close>
    by (simp add: column_def_def case_defs)
  have b3: \<open>column_def (\<lparr>col_name = Some ''error_count'', col_type = Some ''integer'', isPrimaryKey = False,
                isIdentity = False, isNullable = True, defaultValue = Some (DStr ''0'')\<rparr>\<lparr>defaultValue := None\<rparr>)
            = Inr ''    "error_count" INTEGER''\<close>
    by (simp add: column_def_def case_defs)
  have b4: \<open>column_def (\<lparr>col_name = Some ''retries'', col_type = Some ''integer'', isPrimaryKey = False,
                isIdentity = False, isNullable = True, defaultValue = Some (DInt 3)\<rparr>\<lparr>defaultValue := None\<rparr>)
            = Inr ''    "retries" INTEGER''\<close>
    by (simp add: column_def_def case_defs)
  have d: "\<not> isdigit ''pending''" "isdigit ''0''" by (simp_all add: str_defs)
  show ?thesis
    using default_value_clause [OF b1] default_value_clause [OF b2] default_value_clause [OF b3]
      default_value_clause [OF b4] d
    by (simp add: str_int_def)
qed

section \<open>The CREATE TABLE statement\<close>

lemma column_defs_loop_ok:
  "list_all2 (\<lambda>col d. column_def col = Inr d) cols ds \<Longrightarrow>
   column_defs_loop cols acc = Inr (acc @ ds)"
  by (induction cols ds arbitrary: acc rule: list_all2_induct) simp_all

lemma column_defs_exist:
  "\<forall>col \<in> set cols. col_name col \<noteq> None \<and> col_type col \<noteq> None \<Longrightarrow>
   \<exists>ds. list_all2 (\<lambda>col d. column_def col = Inr d) cols ds"
proof (induction cols)
  case Nil
  then show ?case by simp
next
  case (Cons c cols)
  then obtain ds where ds: "list_all2 (\<lambda>col d. column_def col = Inr d) cols ds" by auto
  from Cons.prems obtain d where "column_def c = Inr d"
    using column_def_Inr [of c] by auto
  with ds have "list_all2 (\<lambda>col d. column_def col = Inr d) (c # cols) (d # ds)" by simp
  then show ?case by blast
qed

lemma column_defs_loop_fails:
  "\<exists>col \<in> set cols. col_name col = None \<or> col_type col = None \<Longrightarrow>
   \<exists>k \<in> {''name'', ''type''}. column_defs_loop cols acc = Inl (KeyError k)"
proof (induction cols arbitrary: acc)
  case Nil
  then show ?case by simp
next
  case (Cons c cols)
  show ?case
  proof (cases "column_def c")
    case (Inl e)
    then have "e = KeyError ''name'' \<or> e = KeyError ''type''"
      using column_def_Inl [of c e] by auto
    with Inl show ?thesis by auto
  next
    case (Inr d)
    then have "col_name c \<noteq> None \<and> col_type c \<noteq> None"
      using column_def_Inr [of c] by auto
    with Cons.prems have "\<exists>col \<in> set cols. col_name col = None \<or> col_type col = None" by auto
    from Cons.IH [OF this, of "acc @ [d]"] Inr show ?thesis by simp
  qed
qed

text \<open>
  Claim C4 says that table creation fails with a validation error when the column list
  is empty. The code does not test the list: with no column it builds a statement with
  an empty body, posts it, and returns normally when the server accepts it.
\<close>

theorem create_table_empty_columns_counterexample:
  \<open>create_table ''http://db'' (\<lambda>_ _. Reply 200 (Some [])) ''t'' [] ''public'' [] =
     (Inr (''t'', []),
      [\<lparr>http_method = ''POST'', http_url = ''http://db/pg/query'', http_params = [],
        http_json = JsonQuery (''CREATE TABLE "t" ('' @ [CHR 0x0A, CHR 0x0A] @ '');'')\<rparr>])\<close>
  by (simp add: create_table_def create_table_sql_def full_table_name_def http_def
      json_payload_def raise_for_status_def)

text \<open>
  Claim C4, as the code has it. When some column lacks its name or its type, building
  the statement raises \<^verbatim>\<open>KeyError\<close> (for \<^verbatim>\<open>name\<close> or \<^verbatim>\<open>type\<close>; the
  code has no validation error), no SQL text is produced and \<^verbatim>\<open>create_table\<close>
  sends no request. When every column has both, a statement is produced and posted to
  the query endpoint as the one request of the call; this includes the empty column
  list, whose statement has an empty body.
\<close>

theorem create_table_invalid_columns:
  \<open>((\<exists>col \<in> set columns. col_name col = None \<or> col_type col = None) \<longrightarrow>
      (\<exists>k \<in> {''name'', ''type''}.
         create_table_sql table_name columns schema = Inl (KeyError k)
         \<and> create_table self_url srv table_name columns schema sent = (Inl (KeyError k), sent)))
   \<and> ((\<forall>col \<in> set columns. col_name col \<noteq> None \<and> col_type col \<noteq> None) \<longrightarrow>
      (\<exists>sql. create_table_sql table_name columns schema = Inr sql
         \<and> snd (create_table self_url srv table_name columns schema sent) =
             sent @ [\<lparr>http_method = ''POST'', http_url = self_url @ ''/pg/query'',
                      http_params = [], http_json = JsonQuery sql\<rparr>]))
   \<and> create_table_sql table_name [] schema =
       Inr (''CREATE TABLE '' @ full_table_name schema table_name
            @ '' ('' @ [CHR 0x0A, CHR 0x0A] @ '');'')\<close>
proof -
  have bad: "\<exists>k \<in> {''name'', ''type''}.
         create_table_sql table_name columns schema = Inl (KeyError k)
         \<and> create_table self_url srv table_name columns schema sent = (Inl (KeyError k), sent)"
    if "\<exists>col \<in> set columns. col_name col = None \<or> col_type col = None"
  proof -
    from column_defs_loop_fails [OF that, of "[]"]
    obtain k where k: "k \<in> {''name'', ''type''}" "column_defs_loop columns [] = Inl (KeyError k)"
      by blast
    then have "create_table_sql table_name columns schema = Inl (KeyError k)"
      by (simp add: create_table_sql_def)
    then show ?thesis using k(1) by (auto simp: create_table_def)
  qed
  have good: "\<exists>sql. create_table_sql table_name columns schema = Inr sql
         \<and> snd (create_table self_url srv table_name columns schema sent) =
             sent @ [\<lparr>http_method = ''POST'', http_url = self_url @ ''/pg/query'',
                      http_params = [], http_json = JsonQuery sql\<rparr>]"
    if "\<forall>col \<in> set columns. col_name col \<noteq> None \<and> col_type col \<noteq> None"
  proof -
    from column_defs_exist [OF that] obtain ds
      where "list_all2 (\<lambda>col d. column_def col = Inr d) columns ds" by blast
    from column_defs_loop_ok [OF this, of "[]"]
    obtain sql where sql: "create_table_sql table_name columns schema = Inr sql"
      by (simp add: create_table_sql_def)
    then show ?thesis
      by (auto simp: create_table_def http_def json_payload_def raise_for_status_def
          split: reply.splits)
  qed
  have empty: "create_table_sql table_name [] schema =
       Inr (''CREATE TABLE '' @ full_table_name schema table_name
            @ '' ('' @ [CHR 0x0A, CHR 0x0A] @ '');'')"
    by (simp add: create_table_sql_def)
  from bad good empty show ?thesis by blast
qed

theorem create_table_invalid_columns_witness:
  \<open>create_table ''http://db'' (\<lambda>_ _. Reply 200 (Some [])) ''t''
      [\<lparr>col_name = Some ''id'', col_type = Some ''uuid'', isPrimaryKey = True,
        isIdentity = False, isNullable = False, defaultValue = None\<rparr>,
       \<lparr>col_name = Some ''title'', col_type = None, isPrimaryKey = False,
        isIdentity = False, isNullable = False, defaultValue = None\<rparr>] ''public'' []
     = (Inl (KeyError ''type''), [])
   \<and> snd (create_table ''http://db'' (\<lambda>_ _. Reply 200 (Some [])) ''t''
      [\<lparr>col_name = Some ''id'', col_type = Some ''uuid'', isPrimaryKey = True,
        isIdentity = False, isNullable = False, defaultValue = None\<rparr>] ''public'' [])
     = [\<lparr>http_method = ''POST'', http_url = ''http://db/pg/query'', http_params = [],
         http_json = JsonQuery (''CREATE TABLE "t" ('' @ [CHR 0x0A] @ ''    "id" UUID PRIMARY KEY''
                                  @ [CHR 0x0A] @ '');'')\<rparr>]\<close>
  using create_table_invalid_columns [of
      "[\<lparr>col_name = Some ''id'', col_type = Some ''uuid'', isPrimaryKey = True,
        isIdentity = False, isNullable = False, defaultValue = None\<rparr>,
       \<lparr>col_name = Some ''title'', col_type = None, isPrimaryKey = False,
        isIdentity = False, isNullable = False, defaultValue = None\<rparr>]"
      "''t''" "''public''" "''http://db''" "\<lambda>_ _. Reply 200 (Some [])" "[]"]
    create_table_invalid_columns [of
      "[\<lparr>col_name = Some ''id'', col_type = Some ''uuid'', isPrimaryKey = True,
        isIdentity = False, isNullable = False, defaultValue = None\<rparr>]"
      "''t''" "''public''" "''http://db''" "\<lambda>_ _. Reply 200 (Some [])" "[]"]
  by (simp add: create_table_sql_def column_def_def case_defs full_table_name_def)

text \<open>
  Claim C7. For every column list whose columns have a name and a type, the statement
  is \<^verbatim>\<open>CREATE TABLE\<close>, the quoted table name (qualified by the quoted schema
  unless the schema is \<^verbatim>\<open>public\<close>), an opening parenthesis and a newline, then
  exactly one clause per column, in the order of the list, joined by a comma and a
  newline, then a newline and \<^verbatim>\<open>);\<close>.
\<close>

theorem create_table_sql_clauses:
  assumes "\<forall>col \<in> set columns. col_name col \<noteq> None \<and> col_type col \<noteq> None"
  shows \<open>\<exists>column_defs.
      list_all2 (\<lambda>col d. column_def col = Inr d) columns column_defs
      \<and> create_table_sql table_name columns schema =
          Inr (''CREATE TABLE ''
               @ (if schema = ''public'' then ''"'' @ table_name @ ''"''
                  else ''"'' @ schema @ ''"."'' @ table_name @ ''"'')
               @ '' ('' @ [CHR 0x0A]
               @ join ('','' @ [CHR 0x0A]) column_defs
               @ [CHR 0x0A] @ '');'')\<close>
proof -
  from column_defs_exist [OF assms] obtain ds
    where ds: "list_all2 (\<lambda>col d. column_def col = Inr d) columns ds" by blast
  from column_defs_loop_ok [OF ds, of "[]"]
  have "create_table_sql table_name columns schema =
          Inr (''CREATE TABLE ''
               @ (if schema = ''public'' then [CHR 0x22] @ table_name @ [CHR 0x22]
                  else [CHR 0x22] @ schema @ [CHR 0x22, CHR ''.'', CHR 0x22] @ table_name @ [CHR 0x22])
               @ '' ('' @ [CHR 0x0A]
               @ join ('','' @ [CHR 0x0A]) ds
               @ [CHR 0x0A] @ '');'')"
    by (simp add: create_table_sql_def full_table_name_def)
  with ds show ?thesis by auto
qed

theorem create_table_sql_clauses_witness:
  \<open>create_table_sql ''products''
      [\<lparr>col_name = Some ''id'', col_type = Some ''bigint'', isPrimaryKey = True,
        isIdentity = True, isNullable = False, defaultValue = None\<rparr>,
       \<lparr>col_name = Some ''name'', col_type = Some ''text'', isPrimaryKey = False,
        isIdentity = False, isNullable = False, defaultValue = None\<rparr>,
       \<lparr>col_name = Some ''price'', col_type = Some ''numeric'', isPrimaryKey = False,
        isIdentity = False, isNullable = True, defaultValue = None\<rparr>] ''public''
     = Inr (''CREATE TABLE "products" ('' @ [CHR 0x0A]
            @ ''    "id" BIGSERIAL PRIMARY KEY,'' @ [CHR 0x0A]
            @ ''    "name" TEXT NOT NULL,'' @ [CHR 0x0A]
            @ ''    "price" NUMERIC'' @ [CHR 0x0A] @ '');'')\<close>
proof -
  let ?cols = "[\<lparr>col_name = Some ''id'', col_type = Some ''bigint'', isPrimaryKey = True,
        isIdentity = True, isNullable = False, defaultValue = None\<rparr>,
       \<lparr>col_name = Some ''name'', col_type = Some ''text'', isPrimaryKey = False,
        isIdentity = False, isNullable = False, defaultValue = None\<rparr>,
       \<lparr>col_name = Some ''price'', col_type = Some ''numeric'', isPrimaryKey = False,
        isIdentity = False, isNullable = True, defaultValue = None\<rparr>]"
  have h: "\<forall>col \<in> set ?cols. col_name col \<noteq> None \<and> col_type col \<noteq> None" by simp
  from create_table_sql_clauses [OF h, of "''products''" "''public''"]
  obtain ds where ds: "list_all2 (\<lambda>col d. column_def col = Inr d) ?cols ds"
    and sql: \<open>create_table_sql ''products'' ?cols ''public'' =
          Inr (''CREATE TABLE "products" ('' @ [CHR 0x0A] @ join ('','' @ [CHR 0x0A]) ds @ [CHR 0x0A] @ '');'')\<close>
    by auto
  from ds have \<open>ds = [''    "id" BIGSERIAL PRIMARY KEY'', ''    "name" TEXT NOT NULL'', ''    "price" NUMERIC'']\<close>
    by (simp add: list_all2_Cons1 column_def_def case_defs) 
  with sql show ?thesis by simp
qed

section \<open>Batches of an import\<close>


















section \<open>Where the coercion agrees with the rule of the specification\<close>

text \<open>
  The examples of the specification, and every string in which no \<^verbatim>\<open>-\<close> stands
  after the first character: there the test of the code is the rule of the
  specification together with the presence of a digit, the conversion does not raise, and
  the value is the number the literal denotes (as a float: that number, or an infinity
  when it is beyond the doubles).
\<close>

lemma coerce_examples:
  "coerce ''42'' = Inr (PInt 42)"
  "coerce ''3.14'' = Inr (PFloat 3.14)"
  "coerce '''' = Inr (PStr '''')"
  "coerce ''abc'' = Inr (PStr ''abc'')"
  "coerce ''-5'' = Inr (PInt (- 5))"
  "\<not> numeric_test ''''"
  by (simp_all add: coerce_def numeric_test_def py_int_def py_float_def float_literal_def
      unsigned_float_def float_of_def float_overflow_def str_defs)

lemma float_of_examples:
  "float_of (1 / 2) = PFloat (1 / 2)"
  "float_of (10 ^ 400) = PInfinity False"
  "float_of (- (10 ^ 400)) = PInfinity True"
  by (simp_all add: float_of_def float_overflow_def)

lemma remove1_dot_split:
  "CHR ''.'' \<in> set r \<Longrightarrow>
   remove1 CHR ''.'' r =
     takeWhile (\<lambda>c. c \<noteq> CHR ''.'') r @ drop 1 (dropWhile (\<lambda>c. c \<noteq> CHR ''.'') r)"
  by (induction r) auto

lemma filter_digits_split:
  assumes "CHR ''.'' \<in> set r" and "list_all isdigit_char (remove1 CHR ''.'' r)"
  shows "filter isdigit_char r = remove1 CHR ''.'' r"
  using assms
proof (induction r)
  case Nil
  then show ?case by simp
next
  case (Cons c r)
  show ?case
  proof (cases "c = CHR ''.''")
    case True
    with Cons.prems(2) have "list_all isdigit_char r" by simp
    then have "filter isdigit_char r = r" by (simp add: list_all_iff)
    with True show ?thesis by (simp add: not_digit_dot)
  next
    case False
    with Cons show ?thesis by auto
  qed
qed

lemma unsigned_float_digits:
  assumes "CHR ''.'' \<in> set r" and "isdigit (remove1 CHR ''.'' r)"
  shows "unsigned_float r =
     Inr (of_nat (decimal (filter isdigit_char r))
          / 10 ^ length (drop 1 (dropWhile (\<lambda>c. c \<noteq> CHR ''.'') r)))"
proof -
  let ?ip = "takeWhile (\<lambda>c. c \<noteq> CHR ''.'') r"
  let ?fp = "drop 1 (dropWhile (\<lambda>c. c \<noteq> CHR ''.'') r)"
  have sp: "remove1 CHR ''.'' r = ?ip @ ?fp" by (rule remove1_dot_split [OF assms(1)])
  from assms(2) have all: "list_all isdigit_char (?ip @ ?fp)" and ne: "?ip @ ?fp \<noteq> []"
    unfolding sp isdigit_def by blast+
  have fd: "filter isdigit_char r = ?ip @ ?fp"
    using filter_digits_split [OF assms(1)] all sp by simp
  from all have "list_all isdigit_char ?ip" "list_all isdigit_char ?fp" by simp_all
  with ne show ?thesis
    unfolding unsigned_float_def Let_def fd by simp
qed

lemma coerce_leading_minus:
  assumes "CHR ''-'' \<notin> set (tl v)"
  shows "numeric_test v = (spec_eligible v \<and> (\<exists>c \<in> set v. isdigit_char c))"
    and "numeric_test v \<Longrightarrow> CHR ''.'' \<in> set v \<Longrightarrow> coerce v = Inr (float_of (literal_value v))"
    and "numeric_test v \<Longrightarrow> CHR ''.'' \<notin> set v \<Longrightarrow>
           \<exists>n. coerce v = Inr (PInt n) \<and> of_int n = literal_value v"
    and "\<not> numeric_test v \<Longrightarrow> coerce v = Inr (PStr v)"
proof -
  let ?w = "remove1 CHR ''.'' v"
  have strip: "strip_leading_minus ?w = remove1 CHR ''-'' ?w"
  proof (cases ?w)
    case Nil
    then show ?thesis by (simp add: strip_leading_minus_def)
  next
    case (Cons d w')
    show ?thesis
    proof (cases "d = CHR ''-''")
      case True
      with Cons show ?thesis by (simp add: strip_leading_minus_def)
    next
      case False
      have "CHR ''-'' \<notin> set ?w"
      proof
        assume m: "CHR ''-'' \<in> set ?w"
        then have "CHR ''-'' \<in> set v" by simp
        with assms obtain r where v: "v = CHR ''-'' # r" by (cases v) auto
        then have "?w = CHR ''-'' # remove1 CHR ''.'' r" by simp
        with Cons False show False by simp
      qed
      then have "remove1 CHR ''-'' ?w = ?w" by (simp add: remove1_idem)
      with Cons False show ?thesis by (simp add: strip_leading_minus_def)
    qed
  qed
  show "numeric_test v = (spec_eligible v \<and> (\<exists>c \<in> set v. isdigit_char c))"
  proof
    assume nt: "numeric_test v"
    then have ne: "v \<noteq> []" and u: "remove1 CHR ''-'' ?w \<noteq> []"
      and all: "list_all isdigit_char (remove1 CHR ''-'' ?w)"
      by (auto simp: numeric_test_def isdigit_def replace_first_def)
    from u obtain c where c: "c \<in> set (remove1 CHR ''-'' ?w)" by (cases "remove1 CHR ''-'' ?w") auto
    with all have "isdigit_char c" by (simp add: list_all_iff)
    moreover from c have "c \<in> set v" by (meson notin_set_remove1)
    ultimately show "spec_eligible v \<and> (\<exists>c \<in> set v. isdigit_char c)"
      using ne all by (auto simp: spec_eligible_def strip)
  next
    assume r: "spec_eligible v \<and> (\<exists>c \<in> set v. isdigit_char c)"
    then obtain c where c: "c \<in> set v" "isdigit_char c" by blast
    then have "c \<noteq> CHR ''.''" "c \<noteq> CHR ''-''" using not_digit_dot not_digit_minus by auto
    with c(1) have "c \<in> set (remove1 CHR ''-'' ?w)" by simp
    then have "remove1 CHR ''-'' ?w \<noteq> []" by auto
    with r show "numeric_test v"
      by (auto simp: numeric_test_def isdigit_def replace_first_def spec_eligible_def strip)
  qed
  show "coerce v = Inr (PStr v)" if "\<not> numeric_test v"
    using that by (simp add: coerce_def)
  show "coerce v = Inr (float_of (literal_value v))" if nt: "numeric_test v" and dot: "CHR ''.'' \<in> set v"
  proof -
    from nt obtain c r where v: "v = c # r" by (cases v) (auto simp: numeric_test_def)
    from nt have dig: "isdigit (remove1 CHR ''-'' ?w)"
      by (simp add: numeric_test_def replace_first_def)
    show ?thesis
    proof (cases "c = CHR ''-''")
      case True
      with dot v have dr: "CHR ''.'' \<in> set r" by auto
      from True v dig have "isdigit (remove1 CHR ''.'' r)" by simp
      from unsigned_float_digits [OF dr this] True v nt dot show ?thesis
        by (simp add: coerce_def py_float_def float_literal_def literal_value_def
            strip_leading_minus_def)
    next
      case False
      with assms v have nm: "CHR ''-'' \<notin> set v" by auto
      then have "remove1 CHR ''-'' ?w = ?w" by (metis notin_set_remove1 remove1_idem)
      with dig have dw: "isdigit ?w" by simp
      have "c \<noteq> CHR ''+''"
        using numeric_test_chars [OF nt, of c] v not_digit_plus by auto
      with unsigned_float_digits [OF dot dw] False v nt dot show ?thesis
        by (simp add: coerce_def py_float_def float_literal_def literal_value_def
            strip_leading_minus_def)
    qed
  qed
  show "\<exists>n. coerce v = Inr (PInt n) \<and> of_int n = literal_value v"
    if nt: "numeric_test v" and dot: "CHR ''.'' \<notin> set v"
  proof -
    from nt obtain c r where v: "v = c # r" by (cases v) (auto simp: numeric_test_def)
    from dot have w: "?w = v" by (simp add: remove1_idem)
    from nt have dig: "isdigit (remove1 CHR ''-'' v)"
      by (simp add: numeric_test_def replace_first_def w)
    have nodot: "dropWhile (\<lambda>c. c \<noteq> CHR ''.'') xs = []" if "CHR ''.'' \<notin> set xs" for xs
      using that by (induction xs) auto
    show ?thesis
    proof (cases "c = CHR ''-''")
      case True
      with v dig have dr: "isdigit r" by simp
      then have "filter isdigit_char r = r" by (simp add: isdigit_def list_all_iff)
      moreover from dot v have "CHR ''.'' \<notin> set r" by simp
      ultimately show ?thesis
        using True v nt dot dr
        by (simp add: coerce_def py_int_def literal_value_def strip_leading_minus_def nodot)
    next
      case False
      with assms v have "CHR ''-'' \<notin> set v" by auto
      with dig have dv: "isdigit v" by (simp add: remove1_idem)
      then have f: "filter isdigit_char v = v" by (simp add: isdigit_def list_all_iff)
      have "c \<noteq> CHR ''+''"
        using numeric_test_chars [OF nt, of c] v not_digit_plus by auto
      with False v nt dot dv f nodot [OF dot] show ?thesis
        by (simp add: coerce_def py_int_def literal_value_def strip_leading_minus_def)
    qed
  qed
qed

end
